theory Spec2Isabelle
  imports Complex_Main
begin

section \<open>Data model\<close>

text \<open>
  The notebook \<open>Manipulating Memory at Runtime\<close> defines the workflow
  \<open>ContextualLLMChat\<close> over a \<open>Memory\<close> object. The workflow's own code
  (\<open>_path_to_block_name\<close>, \<open>init\<close>, \<open>update_memory_context\<close>, \<open>chat\<close>) is embedded
  from the notebook. The \<open>Memory\<close> class itself is imported by the notebook from
  \<open>llama_index.core.memory\<close> and its code is not part of the notebook; the parts of it
  that are needed (\<open>aput\<close> with its flush, \<open>aget\<close>) are modelled from the specification
  and marked as such.

  Strings are Python \<open>str\<close> values restricted to 7-bit ASCII characters: this is the
  range on which \<open>\w\<close> is spelled out below. (Python's \<open>\w\<close> also accepts non-ASCII
  alphanumerics, which the byte-sized HOL characters do not represent.)
\<close>

datatype role = User | Assistant | System | Tool

datatype content_block = TextBlock string | ImageBlock string | AudioBlock string

text \<open>
  The notebook passes either a \<open>str\<close> (\<open>static_content=f.read()\<close>, \<open>content=ev.user_msg\<close>)
  or a list of blocks (\<open>static_content=[ImageBlock(path=...)]\<close>).
\<close>

datatype content = Str string | BlockList "content_block list"

record turn =
  role :: role
  content :: content

definition ChatMessage :: "role \<Rightarrow> string \<Rightarrow> turn" where
  "ChatMessage r s = \<lparr>role = r, content = Str s\<rparr>"

text \<open>
  Modelled from the spec: the memory block, whose class is library code. The notebook
  only creates \<open>StaticMemoryBlock(name=..., static_content=...)\<close>; the specification's
  data model adds a priority and the variants that are not static: content fetched
  from a capability, named here by a string, and a summarising block that absorbs
  flushed turns.
\<close>

datatype block_kind =
    Static content
  | Dynamic string
  | Summarizing string "turn list"

record memory_block =
  name :: string
  priority :: int
  kind :: block_kind

text \<open>
  Modelled from the spec: the priority that the library gives to a block created without
  one is not in the notebook. Every block the workflow creates gets this same value, so
  among them priority-then-insertion order is insertion order whatever the value is.
\<close>

definition default_priority :: int where
  "default_priority = 0"

definition StaticMemoryBlock :: "string \<Rightarrow> content \<Rightarrow> memory_block" where
  "StaticMemoryBlock n c = \<lparr>name = n, priority = default_priority, kind = Static c\<rparr>"

text \<open>
  Modelled from the spec: the state of a \<open>Memory\<close> object, whose class is library code.
  It holds the block list that the notebook reads and assigns
  (\<open>self._memory.memory_blocks\<close>) and, from the specification, the live session queue,
  the warnings recorded when turns are dropped, and the pending ad-hoc insert.
\<close>

datatype warning = Dropped "turn list"

record memory =
  memory_blocks :: "memory_block list"
  queue :: "turn list"
  warnings :: "warning list"
  pending :: "content option"

text \<open>
  What a step can raise: the notebook's \<open>ValueError(f"Unsupported file: {path}")\<close>,
  whatever \<open>open\<close> or \<open>f.read()\<close> raises for a path, and the specification's
  \<open>BlockReadError\<close> for a block.
\<close>

datatype py_error =
    ValueError string
  | FileError string
  | BlockReadError string

text \<open>
  The file system as \<open>open(path, "r")\<close> followed by \<open>f.read()\<close> sees it: the text of the
  file, or \<open>None\<close> when opening or reading raises.
\<close>

type_synonym file_system = "string \<Rightarrow> string option"

record context_update_event =
  new_file_paths :: "string list"
  removed_file_paths :: "string list"

datatype chat_event = ChatEvent

section \<open>The workflow's code\<close>

subsection \<open>Block names\<close>

text \<open>\<open>\w\<close> on ASCII: letters, digits and the underscore.\<close>

definition is_word_char :: "char \<Rightarrow> bool" where
  "is_word_char c =
     (c \<in> set ''abcdefghijklmnopqrstuvwxyzABCDEFGHIJKLMNOPQRSTUVWXYZ0123456789_'')"

text \<open>\<open>re.sub(r"[^\w-]", "_", file_path)\<close>\<close>

definition path_to_block_name :: "string \<Rightarrow> string" where
  "path_to_block_name file_path =
     map (\<lambda>c. if is_word_char c \<or> c = CHR ''-'' then c else CHR ''_'') file_path"

subsection \<open>File kinds\<close>

text \<open>\<open>s.endswith(suffix)\<close> and \<open>s.endswith((suffix, ...))\<close>\<close>

definition ends_with :: "string \<Rightarrow> string \<Rightarrow> bool" where
  "ends_with s suf = (length suf \<le> length s \<and> drop (length s - length suf) s = suf)"

definition endswith :: "string \<Rightarrow> string list \<Rightarrow> bool" where
  "endswith s sufs = list_ex (ends_with s) sufs"

definition image_suffixes :: "string list" where
  "image_suffixes = [''.png'', ''.jpg'', ''.jpeg'']"

definition text_suffixes :: "string list" where
  "text_suffixes = [''.txt'', ''.md'', ''.py'', ''.ipynb'']"

subsection \<open>\<open>update_memory_context\<close>\<close>

text \<open>
  The first loop. \<open>names\<close> is \<open>current_block_names\<close>, computed once before the loop
  from the blocks present then and compared with the raw file path. The blocks are
  appended in place, so what was appended before a \<open>raise\<close> stays in the memory: the
  function returns the block list reached together with the exception, if any.
\<close>

fun add_files ::
  "file_system \<Rightarrow> string list \<Rightarrow> memory_block list \<Rightarrow> string list
    \<Rightarrow> py_error option \<times> memory_block list" where
  "add_files fs names bs [] = (None, bs)"
| "add_files fs names bs (new_file_path # rest) =
     (if new_file_path \<notin> set names then
        if endswith new_file_path image_suffixes then
          add_files fs names
            (bs @ [StaticMemoryBlock (path_to_block_name new_file_path)
                     (BlockList [ImageBlock new_file_path])]) rest
        else if endswith new_file_path text_suffixes then
          (case fs new_file_path of
             None \<Rightarrow> (Some (FileError new_file_path), bs)
           | Some txt \<Rightarrow>
               add_files fs names
                 (bs @ [StaticMemoryBlock (path_to_block_name new_file_path) (Str txt)]) rest)
        else (Some (ValueError (''Unsupported file: '' @ new_file_path)), bs)
      else add_files fs names bs rest)"

text \<open>The second loop: one list comprehension per removed path.\<close>

fun remove_files :: "memory_block list \<Rightarrow> string list \<Rightarrow> memory_block list" where
  "remove_files bs [] = bs"
| "remove_files bs (removed_file_path # rest) =
     remove_files
       (filter (\<lambda>block. name block \<noteq> path_to_block_name removed_file_path) bs) rest"

definition update_memory_context ::
  "file_system \<Rightarrow> memory \<Rightarrow> context_update_event \<Rightarrow> (py_error + chat_event) \<times> memory" where
  "update_memory_context fs m ev =
     (let current_block_names = map name (memory_blocks m) in
      case add_files fs current_block_names (memory_blocks m) (new_file_paths ev) of
        (Some e, bs) \<Rightarrow> (Inl e, m\<lparr>memory_blocks := bs\<rparr>)
      | (None, bs) \<Rightarrow>
          (Inr ChatEvent, m\<lparr>memory_blocks := remove_files bs (removed_file_paths ev)\<rparr>))"

section \<open>The memory manager, from the specification\<close>

subsection \<open>Configuration and token estimates\<close>

text \<open>
  Modelled from the spec: the configuration of the manager. Its fields are what the
  notebook passes to \<open>Memory.from_defaults\<close>: \<open>token_limit\<close>, \<open>chat_history_token_ratio\<close>,
  \<open>token_flush_size\<close> and \<open>insert_method\<close> (the specification's \<open>tokenLimit\<close>,
  \<open>chatHistoryRatio\<close>, \<open>flushBatchSize\<close> and placement mode, "separate" or "merged").
  The ratio is an exact rational.
\<close>

datatype insert_mode = Separate | Merged

record config =
  token_limit :: nat
  chat_history_token_ratio :: rat
  token_flush_size :: nat
  insert_method :: insert_mode

text \<open>
  The notebook's call: \<open>token_limit=60000\<close>, \<open>chat_history_token_ratio=0.7\<close>,
  \<open>token_flush_size=5000\<close>, \<open>insert_method="user"\<close>.
\<close>

definition from_defaults :: config where
  "from_defaults =
     \<lparr>token_limit = 60000, chat_history_token_ratio = 7 / 10, token_flush_size = 5000,
      insert_method = Merged\<rparr>"

text \<open>
  Modelled from the spec: the \<open>TokenEstimator\<close>, a pluggable pure function that never
  fails. It is a parameter: one estimate for a turn and one for the blocks as rendered.
\<close>

record estimator =
  turn_tokens :: "turn \<Rightarrow> nat"
  blocks_tokens :: "memory_block list \<Rightarrow> nat"

definition queue_tokens :: "estimator \<Rightarrow> turn list \<Rightarrow> nat" where
  "queue_tokens est q = sum_list (map (turn_tokens est) q)"

subsection \<open>Flush\<close>

text \<open>
  Modelled from the spec: the flush pass of the \<open>MemoryManager\<close> (the library's queue
  management, which the notebook does not contain). "Remove turns from the head of the
  queue (oldest first) in batches until either (a) the queue shrinks below
  \<open>tokenLimit * chatHistoryRatio\<close> or (b) a configured \<open>flushBatchSize\<close> of tokens has
  been removed in one pass, whichever governs per configuration"; and "if a single
  oldest turn alone exceeds the entire budget, it is forcibly removed and reported".
  The specification leaves the precedence of its two knobs to be chosen and documented
  (section 9). Here (a) governs: the pass goes on until the queue is below the target,
  as the scenario of section 8 requires whatever the batch size (1200 appended tokens
  at limit 1000 and ratio 0.7 settle at or below 700). \<open>token_flush_size\<close>, which the
  notebook's call sets, ends no pass. An oldest turn that alone exceeds \<open>token_limit\<close> is
  removed whatever the target. \<open>flush_loop\<close> removes one turn at a time and returns the
  turns removed, oldest first, and the queue that remains.
\<close>

definition below_target :: "config \<Rightarrow> nat \<Rightarrow> bool" where
  "below_target cfg n = (of_nat n < of_nat (token_limit cfg) * chat_history_token_ratio cfg)"

definition oversized :: "config \<Rightarrow> estimator \<Rightarrow> turn \<Rightarrow> bool" where
  "oversized cfg est t = (token_limit cfg < turn_tokens est t)"

fun flush_loop :: "config \<Rightarrow> estimator \<Rightarrow> turn list \<Rightarrow> turn list \<times> turn list" where
  "flush_loop cfg est [] = ([], [])"
| "flush_loop cfg est (t # q) =
     (if \<not> oversized cfg est t \<and> below_target cfg (queue_tokens est (t # q)) then ([], t # q)
      else case flush_loop cfg est q of (evicted, rest) \<Rightarrow> (t # evicted, rest))"

text \<open>
  Modelled from the spec: "removed turns are handed to any block configured to absorb
  overflow (e.g., a summarizer block), never silently discarded unless no absorbing
  block exists, in which case they are dropped with a recorded warning."
\<close>

fun absorbs :: "memory_block \<Rightarrow> bool" where
  "absorbs b = (case kind b of Summarizing k ts \<Rightarrow> True | _ \<Rightarrow> False)"

fun hand_over :: "turn list \<Rightarrow> memory_block \<Rightarrow> memory_block" where
  "hand_over evicted b =
     (case kind b of
        Summarizing k ts \<Rightarrow> b\<lparr>kind := Summarizing k (ts @ evicted)\<rparr>
      | _ \<Rightarrow> b)"

definition flush :: "config \<Rightarrow> estimator \<Rightarrow> memory \<Rightarrow> memory" where
  "flush cfg est m =
     (case flush_loop cfg est (queue m) of
        (evicted, rest) \<Rightarrow>
          if evicted = [] then m\<lparr>queue := rest\<rparr>
          else if list_ex absorbs (memory_blocks m) then
            m\<lparr>queue := rest, memory_blocks := map (hand_over evicted) (memory_blocks m)\<rparr>
          else m\<lparr>queue := rest, warnings := warnings m @ [Dropped evicted]\<rparr>)"

text \<open>
  Modelled from the spec: "after every append, recompute total estimated tokens of
  (queue + rendered blocks). If total exceeds \<open>tokenLimit\<close>, enter flush." A mutation
  has settled when this step is over. \<open>aput\<close> is the notebook's
  \<open>self._memory.aput(message)\<close>, the specification's append.
\<close>

definition over_budget :: "config \<Rightarrow> estimator \<Rightarrow> memory \<Rightarrow> bool" where
  "over_budget cfg est m =
     (token_limit cfg < queue_tokens est (queue m) + blocks_tokens est (memory_blocks m))"

definition settle :: "config \<Rightarrow> estimator \<Rightarrow> memory \<Rightarrow> memory" where
  "settle cfg est m = (if over_budget cfg est m then flush cfg est m else m)"

definition aput :: "config \<Rightarrow> estimator \<Rightarrow> memory \<Rightarrow> turn \<Rightarrow> memory" where
  "aput cfg est m t = settle cfg est (m\<lparr>queue := queue m @ [t]\<rparr>)"

text \<open>A sequence of appends, each settled before the next.\<close>

fun aput_messages :: "config \<Rightarrow> estimator \<Rightarrow> memory \<Rightarrow> turn list \<Rightarrow> memory" where
  "aput_messages cfg est m [] = m"
| "aput_messages cfg est m (t # ts) = aput_messages cfg est (aput cfg est m t) ts"

subsection \<open>Reading the assembled context\<close>

text \<open>
  Modelled from the spec: reading a block. A static block returns its fixed content; a
  dynamic block triggers its capability, which is outside the manager and may fail
  (\<open>None\<close>), and the failure surfaces as \<open>BlockReadError\<close>. The capabilities are a
  parameter of each read, since what they return may change between two calls.
\<close>

type_synonym capabilities = "string \<Rightarrow> turn list \<Rightarrow> content option"

fun read_block :: "capabilities \<Rightarrow> memory_block \<Rightarrow> py_error + content" where
  "read_block env b =
     (case kind b of
        Static c \<Rightarrow> Inr c
      | Dynamic k \<Rightarrow>
          (case env k [] of None \<Rightarrow> Inl (BlockReadError (name b)) | Some c \<Rightarrow> Inr c)
      | Summarizing k ts \<Rightarrow>
          (case env k ts of None \<Rightarrow> Inl (BlockReadError (name b)) | Some c \<Rightarrow> Inr c))"

fun read_blocks :: "capabilities \<Rightarrow> memory_block list \<Rightarrow> py_error + content list" where
  "read_blocks env [] = Inr []"
| "read_blocks env (b # bs) =
     (case read_block env b of
        Inl e \<Rightarrow> Inl e
      | Inr c \<Rightarrow> (case read_blocks env bs of Inl e \<Rightarrow> Inl e | Inr cs \<Rightarrow> Inr (c # cs)))"

text \<open>
  Modelled from the spec: the \<open>ContextAssembler\<close>, a pure function of the rendered
  blocks, the queue, the pending insert and the insert mode. The blocks give one
  synthetic system entry "whose content is the concatenation of static block contents",
  the queue follows in chronological order, and a pending insert is either "a separate
  leading entry" or "merged into the most recent user entry". Where no user entry
  exists the specification is silent; the insert then becomes a separate leading entry.
\<close>

fun blocks_of :: "content \<Rightarrow> content_block list" where
  "blocks_of (Str s) = [TextBlock s]"
| "blocks_of (BlockList bl) = bl"

definition merge_content :: "content \<Rightarrow> content \<Rightarrow> content" where
  "merge_content c d = BlockList (blocks_of c @ blocks_of d)"

fun merge_into_last_user :: "content \<Rightarrow> turn list \<Rightarrow> turn list option" where
  "merge_into_last_user c [] = None"
| "merge_into_last_user c (e # es) =
     (case merge_into_last_user c es of
        Some es' \<Rightarrow> Some (e # es')
      | None \<Rightarrow>
          if role e = User then Some (e\<lparr>content := merge_content (content e) c\<rparr> # es)
          else None)"

definition assemble ::
  "content list \<Rightarrow> turn list \<Rightarrow> content option \<Rightarrow> insert_mode \<Rightarrow> turn list" where
  "assemble rendered q pend mode =
     (let base =
        (if rendered = [] then []
         else [\<lparr>role = System, content = BlockList (concat (map blocks_of rendered))\<rparr>]) @ q
      in case pend of
           None \<Rightarrow> base
         | Some c \<Rightarrow>
             (case mode of
                Separate \<Rightarrow> \<lparr>role = System, content = c\<rparr> # base
              | Merged \<Rightarrow>
                  (case merge_into_last_user c base of
                     Some es \<Rightarrow> es
                   | None \<Rightarrow> \<lparr>role = System, content = c\<rparr> # base)))"

text \<open>
  Modelled from the spec: \<open>read()\<close>, the notebook's \<open>self._memory.aget()\<close>. It "renders
  all blocks (priority order) + remaining queue (chronological order) + any pending
  insert"; blocks come "in ascending priority-then-insertion order" (a stable sort by
  priority); a block that fails to read aborts the call and no context is returned.
  The memory is returned as it was given.
\<close>

definition aget :: "config \<Rightarrow> capabilities \<Rightarrow> memory \<Rightarrow> (py_error + turn list) \<times> memory" where
  "aget cfg env m =
     (case read_blocks env (sort_key priority (memory_blocks m)) of
        Inl e \<Rightarrow> (Inl e, m)
      | Inr rendered \<Rightarrow>
          (Inr (assemble rendered (queue m) (pending m) (insert_method cfg)), m))"

text \<open>The content blocks that an assembled context holds, in order.\<close>

definition context_blocks :: "turn list \<Rightarrow> content_block list" where
  "context_blocks ctx = concat (map (\<lambda>e. blocks_of (content e)) ctx)"

subsection \<open>The \<open>chat\<close> step\<close>

text \<open>
  \<open>chat_history = await self._memory.aget()\<close>, then the model call, an opaque function
  of the context here, whose text is the response.
\<close>

datatype response_event = ResponseEvent string

definition chat ::
  "(turn list \<Rightarrow> string) \<Rightarrow> config \<Rightarrow> capabilities \<Rightarrow> memory
    \<Rightarrow> (py_error + response_event) \<times> memory" where
  "chat llm cfg env m =
     (case aget cfg env m of
        (Inl e, m') \<Rightarrow> (Inl e, m')
      | (Inr chat_history, m') \<Rightarrow> (Inr (ResponseEvent (llm chat_history)), m'))"

subsection \<open>The \<open>init\<close> step and a run of the workflow\<close>

text \<open>
  \<open>InitEvent\<close> carries the user message and the two path lists. \<open>init\<close> appends the
  user message to the memory and forwards to the context update when one of the lists
  is not empty (\<open>if ev.new_file_paths or ev.removed_file_paths\<close>), to the chat otherwise.
\<close>

record init_event = context_update_event +
  user_msg :: string

definition init ::
  "config \<Rightarrow> estimator \<Rightarrow> memory \<Rightarrow> init_event
    \<Rightarrow> (context_update_event + chat_event) \<times> memory" where
  "init cfg est m ev =
     (let m' = aput cfg est m (ChatMessage User (user_msg ev)) in
      if new_file_paths ev \<noteq> [] \<or> removed_file_paths ev \<noteq> [] then
        (Inl \<lparr>new_file_paths = new_file_paths ev,
              removed_file_paths = removed_file_paths ev\<rparr>, m')
      else (Inr ChatEvent, m'))"

text \<open>
  A run routes each event to the step that accepts it, as the notebook's output shows
  (\<open>init\<close>, then \<open>update_memory_context\<close>, then \<open>chat\<close>); an exception raised by a step
  ends the run, with the memory as the step left it.
\<close>

definition run ::
  "file_system \<Rightarrow> (turn list \<Rightarrow> string) \<Rightarrow> config \<Rightarrow> estimator \<Rightarrow> capabilities
    \<Rightarrow> memory \<Rightarrow> init_event \<Rightarrow> (py_error + response_event) \<times> memory" where
  "run fs llm cfg est env m ev =
     (case init cfg est m ev of
        (Inl update, m1) \<Rightarrow>
          (case update_memory_context fs m1 update of
             (Inl e, m2) \<Rightarrow> (Inl e, m2)
           | (Inr ChatEvent, m2) \<Rightarrow> chat llm cfg env m2)
      | (Inr ChatEvent, m1) \<Rightarrow> chat llm cfg env m1)"

section \<open>Example inputs\<close>

text \<open>
  A memory with no blocks and an empty queue, as \<open>Memory.from_defaults\<close> of the notebook
  leaves it, and a small file system.
\<close>

definition empty_memory :: memory where
  "empty_memory = \<lparr>memory_blocks = [], queue = [], warnings = [], pending = None\<rparr>"

definition example_fs :: file_system where
  "example_fs =
     [''a.txt'' \<mapsto> ''alpha'', ''b.txt'' \<mapsto> ''beta'', ''./a.txt'' \<mapsto> ''alpha'',
      ''__a.txt'' \<mapsto> ''other'', ''./memory.py'' \<mapsto> ''import os'',
      ''file_a.txt'' \<mapsto> ''alpha'', ''file_b.txt'' \<mapsto> ''beta'']"

text \<open>
  An estimator that counts one token per character of a text and one per content block,
  and nothing for the blocks; a configuration with small numbers, and a conversation
  of turns of 1, 9 and 5 tokens.
\<close>

definition length_estimator :: estimator where
  "length_estimator =
     \<lparr>turn_tokens = (\<lambda>t. case content t of Str s \<Rightarrow> length s | BlockList bl \<Rightarrow> length bl),
      blocks_tokens = (\<lambda>bs. 0)\<rparr>"

definition small_config :: config where
  "small_config =
     \<lparr>token_limit = 10, chat_history_token_ratio = 7 / 10, token_flush_size = 2,
      insert_method = Merged\<rparr>"

definition three_turns :: "turn list" where
  "three_turns =
     [ChatMessage User ''a'', ChatMessage Assistant ''bbbbbbbbb'', ChatMessage User ''ccccc'']"

lemmas eval_defs =
  update_memory_context_def path_to_block_name_def is_word_char_def endswith_def
  ends_with_def image_suffixes_def text_suffixes_def StaticMemoryBlock_def
  empty_memory_def example_fs_def default_priority_def

lemmas flush_eval_defs =
  aput_def settle_def over_budget_def flush_def below_target_def oversized_def
  queue_tokens_def length_estimator_def small_config_def from_defaults_def ChatMessage_def
  empty_memory_def three_turns_def

lemmas run_eval_defs = run_def init_def chat_def aget_def assemble_def

section \<open>Removing blocks\<close>

lemma remove_files_names:
  "set (remove_files bs ps) = {b \<in> set bs. name b \<notin> path_to_block_name ` set ps}"
  by (induction ps arbitrary: bs) auto

text \<open>
  C6. Removing a block by a name that no block of the memory carries changes nothing:
  the step returns \<open>ChatEvent\<close> and the memory it was given; and the removal of a path,
  present or not, gives the same memory when it is repeated.
\<close>

theorem remove_absent_is_noop:
  "(path_to_block_name p \<notin> name ` set (memory_blocks m) \<longrightarrow>
      update_memory_context fs m \<lparr>new_file_paths = [], removed_file_paths = [p]\<rparr>
        = (Inr ChatEvent, m))
   \<and> update_memory_context fs
        (snd (update_memory_context fs m \<lparr>new_file_paths = [], removed_file_paths = [p]\<rparr>))
        \<lparr>new_file_paths = [], removed_file_paths = [p]\<rparr>
      = update_memory_context fs m \<lparr>new_file_paths = [], removed_file_paths = [p]\<rparr>"
proof -
  have "filter (\<lambda>block. name block \<noteq> path_to_block_name p) (memory_blocks m)
          = memory_blocks m"
    if "path_to_block_name p \<notin> name ` set (memory_blocks m)"
    using that by (intro filter_True ballI notI) (metis imageI)
  then show ?thesis
    by (auto simp: update_memory_context_def)
qed

theorem remove_absent_is_noop_witness:
  "path_to_block_name ''b.txt''
     \<notin> name ` set (memory_blocks
         \<lparr>memory_blocks = [StaticMemoryBlock ''a_txt'' (Str ''alpha'')], queue = [],
          warnings = [], pending = None\<rparr>)
   \<and> update_memory_context (\<lambda>_. None)
       \<lparr>memory_blocks = [StaticMemoryBlock ''a_txt'' (Str ''alpha'')], queue = [],
        warnings = [], pending = None\<rparr>
       \<lparr>new_file_paths = [], removed_file_paths = [''b.txt'']\<rparr>
     = (Inr ChatEvent,
        \<lparr>memory_blocks = [StaticMemoryBlock ''a_txt'' (Str ''alpha'')], queue = [],
         warnings = [], pending = None\<rparr>)"
  using remove_absent_is_noop [of "''b.txt''"
      "\<lparr>memory_blocks = [StaticMemoryBlock ''a_txt'' (Str ''alpha'')], queue = [],
        warnings = [], pending = None\<rparr>" "\<lambda>_. None"]
  by (simp add: path_to_block_name_def is_word_char_def StaticMemoryBlock_def)

section \<open>Adding blocks\<close>

lemma add_files_extends:
  "add_files fs names bs ps = (r, bs') \<Longrightarrow> \<exists>added. bs' = bs @ added"
proof (induction fs names bs ps arbitrary: r bs' rule: add_files.induct)
  case (1 fs names bs)
  then show ?case by simp
next
  case (2 fs names bs p rest)
  then show ?case
    by (fastforce split: if_splits option.splits)
qed

lemma add_files_value_error:
  "add_files fs names bs ps = (Some (ValueError msg), bs') \<Longrightarrow>
     \<exists>before p rest. ps = before @ p # rest
       \<and> msg = ''Unsupported file: '' @ p
       \<and> p \<notin> set names
       \<and> \<not> endswith p image_suffixes \<and> \<not> endswith p text_suffixes
       \<and> add_files fs names bs before = (None, bs')"
proof (induction ps arbitrary: bs)
  case Nil
  then show ?case by simp
next
  case (Cons p rest)
  let ?goal = "\<lambda>bs ps. \<exists>before q rest'. ps = before @ q # rest'
       \<and> msg = ''Unsupported file: '' @ q
       \<and> q \<notin> set names
       \<and> \<not> endswith q image_suffixes \<and> \<not> endswith q text_suffixes
       \<and> add_files fs names bs before = (None, bs')"
  have lift: "?goal bs (p # rest)"
    if "?goal bs2 rest" and "\<And>before. add_files fs names bs (p # before) = add_files fs names bs2 before"
    for bs2
  proof -
    from that(1) obtain before q rest' where *: "rest = before @ q # rest'"
      "msg = ''Unsupported file: '' @ q" "q \<notin> set names"
      "\<not> endswith q image_suffixes" "\<not> endswith q text_suffixes"
      "add_files fs names bs2 before = (None, bs')"
      by blast
    have "p # rest = (p # before) @ q # rest'" using * by simp
    moreover have "add_files fs names bs (p # before) = (None, bs')"
      using that(2) * by simp
    ultimately show ?thesis using * by blast
  qed
  consider (skip) "p \<in> set names"
    | (image) "p \<notin> set names" "endswith p image_suffixes"
    | (readable) body where "p \<notin> set names" "\<not> endswith p image_suffixes"
        "endswith p text_suffixes" "fs p = Some body"
    | (unreadable) "p \<notin> set names" "\<not> endswith p image_suffixes"
        "endswith p text_suffixes" "fs p = None"
    | (unsupported) "p \<notin> set names" "\<not> endswith p image_suffixes"
        "\<not> endswith p text_suffixes"
    by (cases "fs p") auto
  then show ?case
  proof cases
    case skip
    then have "add_files fs names bs rest = (Some (ValueError msg), bs')"
      using Cons.prems by simp
    from Cons.IH [OF this] show ?thesis
      by (rule lift) (simp add: skip)
  next
    case image
    then have "add_files fs names
        (bs @ [StaticMemoryBlock (path_to_block_name p) (BlockList [ImageBlock p])]) rest
        = (Some (ValueError msg), bs')"
      using Cons.prems by simp
    from Cons.IH [OF this] show ?thesis
      by (rule lift) (simp add: image)
  next
    case readable
    then have "add_files fs names
        (bs @ [StaticMemoryBlock (path_to_block_name p) (Str body)]) rest
        = (Some (ValueError msg), bs')"
      using Cons.prems by simp
    from Cons.IH [OF this] show ?thesis
      by (rule lift) (simp add: readable)
  next
    case unreadable
    then show ?thesis using Cons.prems by simp
  next
    case unsupported
    then have "msg = ''Unsupported file: '' @ p" "bs' = bs"
      using Cons.prems by simp_all
    then have "p # rest = [] @ p # rest \<and> msg = ''Unsupported file: '' @ p
       \<and> p \<notin> set names
       \<and> \<not> endswith p image_suffixes \<and> \<not> endswith p text_suffixes
       \<and> add_files fs names bs [] = (None, bs')"
      using unsupported by simp
    then show ?thesis by blast
  qed
qed

lemma add_files_fails:
  "p \<in> set ps \<Longrightarrow> p \<notin> set names \<Longrightarrow>
   \<not> endswith p image_suffixes \<Longrightarrow> \<not> endswith p text_suffixes \<Longrightarrow>
     \<exists>e before q rest bs'.
        add_files fs names bs ps = (Some e, bs')
      \<and> ps = before @ q # rest
      \<and> add_files fs names bs before = (None, bs')
      \<and> (e = ValueError (''Unsupported file: '' @ q) \<or> e = FileError q)"
proof (induction ps arbitrary: bs)
  case Nil
  then show ?case by simp
next
  case (Cons x rest)
  let ?goal = "\<lambda>bs ps. \<exists>e before q rest' bs'.
        add_files fs names bs ps = (Some e, bs')
      \<and> ps = before @ q # rest'
      \<and> add_files fs names bs before = (None, bs')
      \<and> (e = ValueError (''Unsupported file: '' @ q) \<or> e = FileError q)"
  have lift: "?goal bs (x # rest)"
    if "?goal bs2 rest"
      and "\<And>ys. add_files fs names bs (x # ys) = add_files fs names bs2 ys"
    for bs2
  proof -
    from that(1) obtain e before q rest' bs' where *:
      "add_files fs names bs2 rest = (Some e, bs')" "rest = before @ q # rest'"
      "add_files fs names bs2 before = (None, bs')"
      "e = ValueError (''Unsupported file: '' @ q) \<or> e = FileError q"
      by blast
    have "add_files fs names bs (x # rest) = (Some e, bs')"
      using that(2) * by simp
    moreover have "x # rest = (x # before) @ q # rest'" using * by simp
    moreover have "add_files fs names bs (x # before) = (None, bs')"
      using that(2) * by simp
    ultimately show ?thesis using *(4) by blast
  qed
  have stop: "?goal bs (x # rest)"
    if "add_files fs names bs (x # rest) = (Some e, bs)"
      and "e = ValueError (''Unsupported file: '' @ x) \<or> e = FileError x" for e
  proof -
    have "x # rest = [] @ x # rest" "add_files fs names bs [] = (None, bs)"
      by simp_all
    with that show ?thesis by blast
  qed
  consider (skip) "x \<in> set names"
    | (image) "x \<notin> set names" "endswith x image_suffixes"
    | (readable) body where "x \<notin> set names" "\<not> endswith x image_suffixes"
        "endswith x text_suffixes" "fs x = Some body"
    | (unreadable) "x \<notin> set names" "\<not> endswith x image_suffixes"
        "endswith x text_suffixes" "fs x = None"
    | (unsupported) "x \<notin> set names" "\<not> endswith x image_suffixes"
        "\<not> endswith x text_suffixes"
    by (cases "fs x") auto
  then show ?case
  proof cases
    case skip
    with Cons.prems have "p \<in> set rest" by auto
    from Cons.IH [OF this Cons.prems(2-4)] show ?thesis
      by (rule lift) (simp add: skip)
  next
    case image
    with Cons.prems have "p \<in> set rest" by auto
    from Cons.IH [OF this Cons.prems(2-4)] show ?thesis
      by (rule lift) (simp add: image)
  next
    case readable
    with Cons.prems have "p \<in> set rest" by auto
    from Cons.IH [OF this Cons.prems(2-4)] show ?thesis
      by (rule lift) (simp add: readable)
  next
    case unreadable
    then show ?thesis
      by (intro stop [of "FileError x"]) simp_all
  next
    case unsupported
    then show ?thesis
      by (intro stop [of "ValueError (''Unsupported file: '' @ x)"]) simp_all
  qed
qed

text \<open>
  C2. Block names are meant to be unique, and the first loop guards each addition
  with \<open>new_file_path not in current_block_names\<close>. The guard compares the raw path
  with the sanitised names, and the names are those present before the loop. Evaluated
  on the notebook's own file: pinning \<open>./memory.py\<close> in a first request and again in a
  second one leaves two blocks named \<open>__memory_py\<close>.
\<close>

theorem pin_twice_duplicates:
  "update_memory_context example_fs empty_memory
       \<lparr>new_file_paths = [''./memory.py''], removed_file_paths = []\<rparr>
     = (Inr ChatEvent,
        empty_memory\<lparr>memory_blocks := [StaticMemoryBlock ''__memory_py'' (Str ''import os'')]\<rparr>)
   \<and> update_memory_context example_fs
       (empty_memory\<lparr>memory_blocks := [StaticMemoryBlock ''__memory_py'' (Str ''import os'')]\<rparr>)
       \<lparr>new_file_paths = [''./memory.py''], removed_file_paths = []\<rparr>
     = (Inr ChatEvent,
        empty_memory\<lparr>memory_blocks :=
          [StaticMemoryBlock ''__memory_py'' (Str ''import os''),
           StaticMemoryBlock ''__memory_py'' (Str ''import os'')]\<rparr>)
   \<and> \<not> distinct (map name
          [StaticMemoryBlock ''__memory_py'' (Str ''import os''),
           StaticMemoryBlock ''__memory_py'' (Str ''import os'')])"
  by (simp add: eval_defs)

text \<open>
  C3, as stated, fails: a request that lists a supported file before an unsupported one
  raises \<open>ValueError\<close> and leaves the block of the supported file in the memory. In a
  run of the workflow the queue has changed as well by then: \<open>init\<close> has appended the
  user message.
\<close>

theorem unsupported_after_supported_counterexample:
  "update_memory_context example_fs empty_memory
       \<lparr>new_file_paths = [''a.txt'', ''b.exe''], removed_file_paths = []\<rparr>
     = (Inl (ValueError ''Unsupported file: b.exe''),
        empty_memory\<lparr>memory_blocks := [StaticMemoryBlock ''a_txt'' (Str ''alpha'')]\<rparr>)
   \<and> empty_memory\<lparr>memory_blocks := [StaticMemoryBlock ''a_txt'' (Str ''alpha'')]\<rparr>
       \<noteq> empty_memory
   \<and> run example_fs (\<lambda>chat_history. ''ok'') from_defaults length_estimator
       (\<lambda>k ts. None) empty_memory
       \<lparr>new_file_paths = [''a.txt'', ''b.exe''], removed_file_paths = [], user_msg = ''hi''\<rparr>
     = (Inl (ValueError ''Unsupported file: b.exe''),
        empty_memory\<lparr>memory_blocks := [StaticMemoryBlock ''a_txt'' (Str ''alpha'')],
          queue := [ChatMessage User ''hi'']\<rparr>)"
  by (simp add: eval_defs flush_eval_defs run_eval_defs)

text \<open>
  C3, amended. A request that lists an unsupported file path, one that is not
  spelled like the name of a block already present, fails: the step raises at the first
  path it cannot process, which is an unsupported path or, before it, a text file that
  cannot be read. No removal is carried out, and the queue, the warnings and the
  pending insert are as the step received them; but the block list is the previous one
  followed by the blocks appended for the paths listed before the failing one. When the
  exception is the \<open>ValueError\<close>, the failing path is the unsupported one it names. When
  the unsupported path is the first of the request, the memory is exactly what it was.
\<close>

theorem unsupported_file_effect:
  "(p \<in> set (new_file_paths ev) \<and> p \<notin> name ` set (memory_blocks m)
        \<and> \<not> endswith p image_suffixes \<and> \<not> endswith p text_suffixes \<longrightarrow>
      (\<exists>e before failed rest added.
          update_memory_context fs m ev
            = (Inl e, m\<lparr>memory_blocks := memory_blocks m @ added\<rparr>)
        \<and> new_file_paths ev = before @ failed # rest
        \<and> add_files fs (map name (memory_blocks m)) (memory_blocks m) before
            = (None, memory_blocks m @ added)
        \<and> (e = ValueError (''Unsupported file: '' @ failed) \<or> e = FileError failed)))
   \<and> (update_memory_context fs m ev = (Inl (ValueError msg), m') \<longrightarrow>
      (\<exists>before p rest added.
          new_file_paths ev = before @ p # rest
        \<and> msg = ''Unsupported file: '' @ p
        \<and> p \<notin> name ` set (memory_blocks m)
        \<and> \<not> endswith p image_suffixes \<and> \<not> endswith p text_suffixes
        \<and> add_files fs (map name (memory_blocks m)) (memory_blocks m) before
            = (None, memory_blocks m @ added)
        \<and> m' = m\<lparr>memory_blocks := memory_blocks m @ added\<rparr>))
   \<and> (q \<notin> name ` set (memory_blocks m)
        \<and> \<not> endswith q image_suffixes \<and> \<not> endswith q text_suffixes \<longrightarrow>
      update_memory_context fs m \<lparr>new_file_paths = q # ps, removed_file_paths = rs\<rparr>
        = (Inl (ValueError (''Unsupported file: '' @ q)), m))"
proof (intro conjI impI)
  assume a: "p \<in> set (new_file_paths ev) \<and> p \<notin> name ` set (memory_blocks m)
        \<and> \<not> endswith p image_suffixes \<and> \<not> endswith p text_suffixes"
  let ?names = "map name (memory_blocks m)"
  from a have "p \<in> set (new_file_paths ev)" "p \<notin> set ?names"
    "\<not> endswith p image_suffixes" "\<not> endswith p text_suffixes"
    by simp_all
  from add_files_fails [OF this, of fs "memory_blocks m"]
  obtain e before failed rest bs' where f:
    "add_files fs ?names (memory_blocks m) (new_file_paths ev) = (Some e, bs')"
    "new_file_paths ev = before @ failed # rest"
    "add_files fs ?names (memory_blocks m) before = (None, bs')"
    "e = ValueError (''Unsupported file: '' @ failed) \<or> e = FileError failed"
    by blast
  from add_files_extends [OF f(3)] obtain added where added: "bs' = memory_blocks m @ added"
    by blast
  have "update_memory_context fs m ev = (Inl e, m\<lparr>memory_blocks := memory_blocks m @ added\<rparr>)"
    using f(1) added by (simp add: update_memory_context_def)
  with f added show "\<exists>e before failed rest added.
          update_memory_context fs m ev
            = (Inl e, m\<lparr>memory_blocks := memory_blocks m @ added\<rparr>)
        \<and> new_file_paths ev = before @ failed # rest
        \<and> add_files fs (map name (memory_blocks m)) (memory_blocks m) before
            = (None, memory_blocks m @ added)
        \<and> (e = ValueError (''Unsupported file: '' @ failed) \<or> e = FileError failed)"
    by blast
next
  assume fails: "update_memory_context fs m ev = (Inl (ValueError msg), m')"
  let ?names = "map name (memory_blocks m)"
  obtain r bs where run: "add_files fs ?names (memory_blocks m) (new_file_paths ev) = (r, bs)"
    by (cases "add_files fs ?names (memory_blocks m) (new_file_paths ev)")
  with fails have r: "r = Some (ValueError msg)" and m': "m' = m\<lparr>memory_blocks := bs\<rparr>"
    by (auto simp: update_memory_context_def split: option.splits)
  from add_files_value_error [OF run [unfolded r]] obtain before p rest where
    parts: "new_file_paths ev = before @ p # rest" "msg = ''Unsupported file: '' @ p"
      "p \<notin> set ?names" "\<not> endswith p image_suffixes" "\<not> endswith p text_suffixes"
      "add_files fs ?names (memory_blocks m) before = (None, bs)"
    by blast
  from add_files_extends [OF parts(6)] obtain added where "bs = memory_blocks m @ added"
    by blast
  with parts m' show "\<exists>before p rest added.
          new_file_paths ev = before @ p # rest
        \<and> msg = ''Unsupported file: '' @ p
        \<and> p \<notin> name ` set (memory_blocks m)
        \<and> \<not> endswith p image_suffixes \<and> \<not> endswith p text_suffixes
        \<and> add_files fs (map name (memory_blocks m)) (memory_blocks m) before
            = (None, memory_blocks m @ added)
        \<and> m' = m\<lparr>memory_blocks := memory_blocks m @ added\<rparr>"
    by auto
next
  assume "q \<notin> name ` set (memory_blocks m)
        \<and> \<not> endswith q image_suffixes \<and> \<not> endswith q text_suffixes"
  then show "update_memory_context fs m \<lparr>new_file_paths = q # ps, removed_file_paths = rs\<rparr>
        = (Inl (ValueError (''Unsupported file: '' @ q)), m)"
    by (simp add: update_memory_context_def)
qed

theorem unsupported_file_effect_witness:
  "''b.exe'' \<in> set [''a.txt'', ''b.exe'']
   \<and> ''b.exe'' \<notin> name ` set (memory_blocks empty_memory)
   \<and> \<not> endswith ''b.exe'' image_suffixes \<and> \<not> endswith ''b.exe'' text_suffixes
   \<and> (\<exists>e added.
        update_memory_context example_fs empty_memory
          \<lparr>new_file_paths = [''a.txt'', ''b.exe''], removed_file_paths = [''a.txt'']\<rparr>
        = (Inl e, empty_memory\<lparr>memory_blocks := added\<rparr>))
   \<and> update_memory_context example_fs empty_memory
       \<lparr>new_file_paths = [''a.txt'', ''b.exe''], removed_file_paths = [''a.txt'']\<rparr>
     = (Inl (ValueError ''Unsupported file: b.exe''),
        empty_memory\<lparr>memory_blocks := [StaticMemoryBlock ''a_txt'' (Str ''alpha'')]\<rparr>)
   \<and> (\<exists>before p rest added.
          [''a.txt'', ''b.exe''] = before @ p # rest
        \<and> ''Unsupported file: b.exe'' = ''Unsupported file: '' @ p
        \<and> add_files example_fs [] [] before = (None, added)
        \<and> empty_memory\<lparr>memory_blocks := [StaticMemoryBlock ''a_txt'' (Str ''alpha'')]\<rparr>
            = empty_memory\<lparr>memory_blocks := added\<rparr>)
   \<and> update_memory_context example_fs empty_memory
       \<lparr>new_file_paths = [''b.exe'', ''a.txt''], removed_file_paths = [''a.txt'']\<rparr>
     = (Inl (ValueError ''Unsupported file: b.exe''), empty_memory)"
proof -
  have run: "update_memory_context example_fs empty_memory
       \<lparr>new_file_paths = [''a.txt'', ''b.exe''], removed_file_paths = [''a.txt'']\<rparr>
     = (Inl (ValueError ''Unsupported file: b.exe''),
        empty_memory\<lparr>memory_blocks := [StaticMemoryBlock ''a_txt'' (Str ''alpha'')]\<rparr>)"
    by (simp add: eval_defs)
  have pre: "''b.exe'' \<notin> name ` set (memory_blocks empty_memory)
     \<and> \<not> endswith ''b.exe'' image_suffixes \<and> \<not> endswith ''b.exe'' text_suffixes"
    by (simp add: eval_defs)
  have mb: "memory_blocks empty_memory = []"
    by (simp add: empty_memory_def)
  note effect = unsupported_file_effect [where fs = example_fs and m = empty_memory
      and ev = "\<lparr>new_file_paths = [''a.txt'', ''b.exe''], removed_file_paths = [''a.txt'']\<rparr>"
      and p = "''b.exe''" and msg = "''Unsupported file: b.exe''"
      and m' = "empty_memory\<lparr>memory_blocks := [StaticMemoryBlock ''a_txt'' (Str ''alpha'')]\<rparr>"
      and q = "''b.exe''" and ps = "[''a.txt'']" and rs = "[''a.txt'']"]
  have listed: "''b.exe'' \<in> set (new_file_paths
      \<lparr>new_file_paths = [''a.txt'', ''b.exe''], removed_file_paths = [''a.txt'']\<rparr>)"
    by simp
  from effect listed pre have fails: "\<exists>e added.
        update_memory_context example_fs empty_memory
          \<lparr>new_file_paths = [''a.txt'', ''b.exe''], removed_file_paths = [''a.txt'']\<rparr>
        = (Inl e, empty_memory\<lparr>memory_blocks := added\<rparr>)"
    unfolding mb by (metis append_Nil)
  from effect show ?thesis
    using run pre fails by (simp add: mb)
qed

section \<open>Order of additions and removals\<close>

text \<open>
  C10. In one request all additions are processed before all removals: when the step
  completes, its block list is the list after the additions with the removals applied
  to it, and a path listed both as new and as removed has no block of its name left.
\<close>

theorem additions_before_removals:
  "update_memory_context fs m ev = (Inr ChatEvent, m') \<Longrightarrow>
   p \<in> set (new_file_paths ev) \<Longrightarrow> p \<in> set (removed_file_paths ev) \<Longrightarrow>
     (\<exists>added.
         add_files fs (map name (memory_blocks m)) (memory_blocks m) (new_file_paths ev)
           = (None, memory_blocks m @ added)
       \<and> m' = m\<lparr>memory_blocks :=
                 remove_files (memory_blocks m @ added) (removed_file_paths ev)\<rparr>)
     \<and> path_to_block_name p \<notin> name ` set (memory_blocks m')"
proof -
  assume completes: "update_memory_context fs m ev = (Inr ChatEvent, m')"
    and "p \<in> set (new_file_paths ev)" and rem: "p \<in> set (removed_file_paths ev)"
  let ?names = "map name (memory_blocks m)"
  obtain r bs where run: "add_files fs ?names (memory_blocks m) (new_file_paths ev) = (r, bs)"
    by (cases "add_files fs ?names (memory_blocks m) (new_file_paths ev)")
  with completes have r: "r = None"
    and m': "m' = m\<lparr>memory_blocks := remove_files bs (removed_file_paths ev)\<rparr>"
    by (auto simp: update_memory_context_def split: option.splits)
  from add_files_extends [OF run] obtain added where added: "bs = memory_blocks m @ added"
    by blast
  have "path_to_block_name p \<notin> name ` set (remove_files bs (removed_file_paths ev))"
  proof
    assume "path_to_block_name p \<in> name ` set (remove_files bs (removed_file_paths ev))"
    then obtain b where b: "b \<in> set (remove_files bs (removed_file_paths ev))"
      "name b = path_to_block_name p"
      by (metis imageE)
    then have "name b \<notin> path_to_block_name ` set (removed_file_paths ev)"
      by (simp add: remove_files_names)
    with rem b(2) show False
      by (metis imageI)
  qed
  with run r m' added show ?thesis by auto
qed

theorem additions_before_removals_witness:
  "update_memory_context example_fs empty_memory
       \<lparr>new_file_paths = [''a.txt'', ''b.txt''], removed_file_paths = [''a.txt'']\<rparr>
     = (Inr ChatEvent,
        empty_memory\<lparr>memory_blocks := [StaticMemoryBlock ''b_txt'' (Str ''beta'')]\<rparr>)
   \<and> ''a.txt'' \<in> set [''a.txt'', ''b.txt''] \<and> ''a.txt'' \<in> set [''a.txt'']
   \<and> path_to_block_name ''a.txt''
       \<notin> name ` set (memory_blocks
            (empty_memory\<lparr>memory_blocks := [StaticMemoryBlock ''b_txt'' (Str ''beta'')]\<rparr>))"
proof -
  have run: "update_memory_context example_fs empty_memory
       \<lparr>new_file_paths = [''a.txt'', ''b.txt''], removed_file_paths = [''a.txt'']\<rparr>
     = (Inr ChatEvent,
        empty_memory\<lparr>memory_blocks := [StaticMemoryBlock ''b_txt'' (Str ''beta'')]\<rparr>)"
    by (simp add: eval_defs)
  from additions_before_removals [OF run, of "''a.txt''"] run show ?thesis
    by simp
qed

section \<open>Block names\<close>

lemma path_to_block_name_nth:
  "i < length p \<Longrightarrow>
     path_to_block_name p ! i
       = (if is_word_char (p ! i) \<or> p ! i = CHR ''-'' then p ! i else CHR ''_'')"
  by (simp add: path_to_block_name_def)

text \<open>
  C9. The block name of a path has the path's length, keeps every word character and
  hyphen, and has an underscore in place of every other character. Distinct paths can
  therefore share a name, as \<open>./a.txt\<close> and \<open>__a_txt\<close> do, and removing a path removes
  every block carrying the name of any path \<open>q\<close> with the same name, whichever path
  the block was pinned under.
\<close>

theorem block_names_collide:
  "length (path_to_block_name p) = length p
   \<and> (\<forall>i < length p.
        path_to_block_name p ! i
          = (if is_word_char (p ! i) \<or> p ! i = CHR ''-'' then p ! i else CHR ''_''))
   \<and> ''./a.txt'' \<noteq> ''__a_txt''
   \<and> path_to_block_name ''./a.txt'' = path_to_block_name ''__a_txt''
   \<and> (path_to_block_name p = path_to_block_name q \<longrightarrow>
        update_memory_context fs m \<lparr>new_file_paths = [], removed_file_paths = [p]\<rparr>
          = (Inr ChatEvent,
             m\<lparr>memory_blocks :=
                 filter (\<lambda>b. name b \<noteq> path_to_block_name q) (memory_blocks m)\<rparr>))"
  by (simp add: path_to_block_name_nth)
     (simp add: path_to_block_name_def is_word_char_def update_memory_context_def)

theorem block_names_collide_witness:
  "path_to_block_name ''__a_txt'' = path_to_block_name ''__a.txt''
   \<and> update_memory_context example_fs empty_memory
       \<lparr>new_file_paths = [''./a.txt'', ''__a.txt''], removed_file_paths = []\<rparr>
     = (Inr ChatEvent,
        empty_memory\<lparr>memory_blocks :=
          [StaticMemoryBlock ''__a_txt'' (Str ''alpha''),
           StaticMemoryBlock ''__a_txt'' (Str ''other'')]\<rparr>)
   \<and> update_memory_context example_fs
       (empty_memory\<lparr>memory_blocks :=
          [StaticMemoryBlock ''__a_txt'' (Str ''alpha''),
           StaticMemoryBlock ''__a_txt'' (Str ''other'')]\<rparr>)
       \<lparr>new_file_paths = [], removed_file_paths = [''__a_txt'']\<rparr>
     = (Inr ChatEvent, empty_memory)
   \<and> path_to_block_name ''./a.txt'' ! 1 = CHR ''_''"
  using block_names_collide [of "''__a_txt''" "''__a.txt''" example_fs
      "empty_memory\<lparr>memory_blocks :=
          [StaticMemoryBlock ''__a_txt'' (Str ''alpha''),
           StaticMemoryBlock ''__a_txt'' (Str ''other'')]\<rparr>"]
  by (simp add: eval_defs)

section \<open>The flush pass\<close>


lemma flush_loop_exit:
  "flush_loop cfg est q = (evicted, rest) \<Longrightarrow>
     rest = [] \<or> \<not> oversized cfg est (hd rest) \<and> below_target cfg (queue_tokens est rest)"
  by (induction q arbitrary: evicted rest) (auto split: if_splits prod.splits)

lemma below_target_within_limit:
  "below_target cfg n \<Longrightarrow> chat_history_token_ratio cfg \<le> 1 \<Longrightarrow> n \<le> token_limit cfg"
proof -
  assume b: "below_target cfg n" and r: "chat_history_token_ratio cfg \<le> 1"
  have "(of_nat (token_limit cfg) :: rat) * chat_history_token_ratio cfg
          \<le> of_nat (token_limit cfg)"
    using r by (simp add: mult_left_le)
  with b have "(of_nat n :: rat) < of_nat (token_limit cfg)"
    by (simp add: below_target_def)
  then show ?thesis by simp
qed

lemma queue_flush:
  "queue (flush cfg est m) = snd (flush_loop cfg est (queue m))"
  by (simp add: flush_def split: prod.splits)

lemma flush_within_limit:
  "chat_history_token_ratio cfg \<le> 1 \<Longrightarrow>
     queue_tokens est (queue (flush cfg est m)) \<le> token_limit cfg"
proof -
  assume r: "chat_history_token_ratio cfg \<le> 1"
  obtain ev rest where run: "flush_loop cfg est (queue m) = (ev, rest)"
    by (cases "flush_loop cfg est (queue m)")
  from flush_loop_exit [OF run] below_target_within_limit [OF _ r]
  have "queue_tokens est rest \<le> token_limit cfg"
    by (auto simp: queue_tokens_def)
  with run show ?thesis by (simp add: queue_flush)
qed

lemma settle_within_limit:
  "chat_history_token_ratio cfg \<le> 1 \<Longrightarrow>
     queue_tokens est (queue (settle cfg est m)) \<le> token_limit cfg"
  by (simp add: settle_def flush_within_limit over_budget_def)

lemma aput_messages_within_limit:
  "chat_history_token_ratio cfg \<le> 1 \<Longrightarrow> queue_tokens est (queue m) \<le> token_limit cfg \<Longrightarrow>
     queue_tokens est (queue (aput_messages cfg est m ts)) \<le> token_limit cfg"
proof (induction ts arbitrary: m)
  case Nil
  then show ?case by simp
next
  case (Cons t ts)
  have "queue_tokens est (queue (aput cfg est m t)) \<le> token_limit cfg"
    unfolding aput_def using Cons.prems(1) by (rule settle_within_limit)
  with Cons show ?case by simp
qed

section \<open>The queue after appends\<close>

text \<open>
  C1, as stated, fails. With a ratio of 2 the target lies above the limit: at a limit of
  10, appending turns of 1, 9 and 5 tokens settles with all 15 tokens in the queue, and
  no turn alone exceeds the limit.
\<close>

theorem queue_over_limit_counterexample:
  "chat_history_token_ratio (small_config\<lparr>chat_history_token_ratio := 2\<rparr>) = 2
   \<and> token_limit (small_config\<lparr>chat_history_token_ratio := 2\<rparr>) = 10
   \<and> map (turn_tokens length_estimator) three_turns = [1, 9, 5]
   \<and> queue (aput_messages (small_config\<lparr>chat_history_token_ratio := 2\<rparr>)
        length_estimator empty_memory three_turns) = three_turns
   \<and> queue_tokens length_estimator three_turns = 15"
  by (simp add: flush_eval_defs)

text \<open>
  C1, amended. When \<open>chat_history_token_ratio\<close> is at most 1, after every sequence of
  appends, each settled before the next, from a memory whose queue was within the
  limit, the queue holds at most \<open>token_limit\<close> estimated tokens, or else it holds a turn
  that alone exceeds the limit.
\<close>

theorem queue_within_limit:
  "chat_history_token_ratio cfg \<le> 1 \<Longrightarrow> queue_tokens est (queue m) \<le> token_limit cfg \<Longrightarrow>
     queue_tokens est (queue (aput_messages cfg est m ts)) \<le> token_limit cfg
     \<or> (\<exists>t \<in> set (queue (aput_messages cfg est m ts)). oversized cfg est t)"
  by (simp add: aput_messages_within_limit)

theorem queue_within_limit_witness:
  "chat_history_token_ratio small_config \<le> 1
   \<and> queue_tokens length_estimator (queue empty_memory) \<le> token_limit small_config
   \<and> queue (aput_messages small_config length_estimator empty_memory three_turns)
       = [ChatMessage User ''ccccc'']
   \<and> queue_tokens length_estimator [ChatMessage User ''ccccc''] = 5
   \<and> token_limit small_config = 10
   \<and> \<not> oversized small_config length_estimator (ChatMessage User ''ccccc'')
   \<and> chat_history_token_ratio from_defaults \<le> 1
   \<and> queue (aput_messages from_defaults length_estimator empty_memory three_turns)
       = three_turns"
proof -
  have pre: "chat_history_token_ratio small_config \<le> 1"
    "queue_tokens length_estimator (queue empty_memory) \<le> token_limit small_config"
    by (simp_all add: flush_eval_defs)
  have pre': "chat_history_token_ratio from_defaults \<le> 1"
    "queue_tokens length_estimator (queue empty_memory) \<le> token_limit from_defaults"
    by (simp_all add: flush_eval_defs)
  have run: "queue (aput_messages small_config length_estimator empty_memory three_turns)
       = [ChatMessage User ''ccccc'']"
    "queue (aput_messages from_defaults length_estimator empty_memory three_turns)
       = three_turns"
    by (simp_all add: flush_eval_defs)
  have vals: "queue_tokens length_estimator [ChatMessage User ''ccccc''] = 5"
    "token_limit small_config = 10"
    "\<not> oversized small_config length_estimator (ChatMessage User ''ccccc'')"
    by (simp_all add: flush_eval_defs)
  from queue_within_limit [OF pre, of three_turns] queue_within_limit [OF pre', of three_turns]
  show ?thesis using pre pre' run vals by simp
qed

section \<open>Termination of the flush\<close>



section \<open>Pinning and unpinning\<close>

lemma block_name_chars:
  "c \<in> set (path_to_block_name p) \<Longrightarrow> is_word_char c \<or> c = CHR ''-'' \<or> c = CHR ''_''"
  by (auto simp: path_to_block_name_def split: if_splits)

lemma block_name_no_dot: "CHR ''.'' \<notin> set (path_to_block_name p)"
proof
  assume "CHR ''.'' \<in> set (path_to_block_name p)"
  from block_name_chars [OF this] show False
    by (simp add: is_word_char_def)
qed

lemma ends_with_subset: "ends_with s suf \<Longrightarrow> set suf \<subseteq> set s"
  by (metis ends_with_def set_drop_subset)

lemma supported_has_dot:
  "endswith p image_suffixes \<or> endswith p text_suffixes \<Longrightarrow> CHR ''.'' \<in> set p"
proof -
  assume "endswith p image_suffixes \<or> endswith p text_suffixes"
  then obtain suf where "ends_with p suf" "CHR ''.'' \<in> set suf"
    by (auto simp: endswith_def image_suffixes_def text_suffixes_def)
  with ends_with_subset show ?thesis by blast
qed

lemma add_files_single_supported:
  "add_files fs names bs [p] = (None, bs') \<Longrightarrow> p \<notin> set names \<Longrightarrow>
     endswith p image_suffixes \<or> endswith p text_suffixes"
  by (auto split: if_splits option.splits)

lemma add_files_single:
  "add_files fs [] [] [p] = (None, [blk]) \<Longrightarrow> p \<notin> set names \<Longrightarrow>
     add_files fs names bs [p] = (None, bs @ [blk])"
  by (auto split: if_splits option.splits)

lemma context_blocks_append:
  "context_blocks (xs @ ys) = context_blocks xs @ context_blocks ys"
  by (simp add: context_blocks_def)

lemma context_blocks_Cons:
  "context_blocks (e # es) = blocks_of (content e) @ context_blocks es"
  by (simp add: context_blocks_def)

lemma context_blocks_merge:
  "merge_into_last_user c es = Some es' \<Longrightarrow>
     set (context_blocks es') = set (context_blocks es) \<union> set (blocks_of c)"
proof (induction es arbitrary: es')
  case Nil
  then show ?case by simp
next
  case (Cons e es)
  show ?case
  proof (cases "merge_into_last_user c es")
    case None
    with Cons.prems have "role e = User"
      and "es' = e\<lparr>content := merge_content (content e) c\<rparr> # es"
      by (auto split: if_splits)
    then show ?thesis
      by (auto simp: context_blocks_Cons merge_content_def)
  next
    case (Some es2)
    with Cons.prems have "es' = e # es2" by simp
    with Cons.IH [OF Some] show ?thesis
      by (auto simp: context_blocks_Cons)
  qed
qed

lemma context_blocks_assemble:
  "set (context_blocks (assemble rendered q pend mode))
     = (\<Union>c \<in> set rendered. set (blocks_of c)) \<union> set (context_blocks q)
       \<union> (case pend of None \<Rightarrow> {} | Some c \<Rightarrow> set (blocks_of c))"
proof -
  let ?base = "(if rendered = [] then []
         else [\<lparr>role = System, content = BlockList (concat (map blocks_of rendered))\<rparr>]) @ q"
  have base: "set (context_blocks ?base)
      = (\<Union>c \<in> set rendered. set (blocks_of c)) \<union> set (context_blocks q)"
    by (simp add: context_blocks_append context_blocks_Cons) (simp add: context_blocks_def)
  show ?thesis
  proof (cases pend)
    case None
    with base show ?thesis by (simp add: assemble_def)
  next
    case (Some c)
    show ?thesis
    proof (cases "mode = Merged \<and> merge_into_last_user c ?base \<noteq> None")
      case True
      then obtain es where es: "merge_into_last_user c ?base = Some es" by auto
      from context_blocks_merge [OF es] base
      have "set (context_blocks es)
         = (\<Union>c \<in> set rendered. set (blocks_of c)) \<union> set (context_blocks q)
           \<union> set (blocks_of c)"
        by simp
      moreover have "assemble rendered q pend mode = es"
        using Some True es by (simp add: assemble_def)
      ultimately show ?thesis using Some by simp
    next
      case False
      then have "assemble rendered q pend mode = \<lparr>role = System, content = c\<rparr> # ?base"
        using Some by (cases mode) (auto simp: assemble_def)
      with base Some show ?thesis
        by (auto simp: context_blocks_Cons)
    qed
  qed
qed

text \<open>
  C7. Let \<open>a\<close> and \<open>b\<close> be files that the workflow can pin (adding each to an empty
  block list gives a static block of content \<open>ca\<close>, \<open>cb\<close>), with different block names.
  From a memory with no blocks, pinning \<open>a\<close>, pinning \<open>b\<close> and unpinning \<open>a\<close> succeed
  and leave the block of \<open>b\<close> alone; the context read then is assembled from \<open>cb\<close>,
  the queue and the pending insert only: it holds the content of \<open>b\<close>, and content of
  \<open>a\<close> only where \<open>b\<close>, the queue or the pending insert hold it too.
\<close>

theorem pin_pin_unpin:
  assumes empty: "memory_blocks m = []"
    and pin_a: "add_files fs [] [] [a] = (None, [StaticMemoryBlock (path_to_block_name a) ca])"
    and pin_b: "add_files fs [] [] [b] = (None, [StaticMemoryBlock (path_to_block_name b) cb])"
    and names: "path_to_block_name a \<noteq> path_to_block_name b"
  shows "update_memory_context fs m \<lparr>new_file_paths = [a], removed_file_paths = []\<rparr>
       = (Inr ChatEvent,
          m\<lparr>memory_blocks := [StaticMemoryBlock (path_to_block_name a) ca]\<rparr>)
     \<and> update_memory_context fs
         (m\<lparr>memory_blocks := [StaticMemoryBlock (path_to_block_name a) ca]\<rparr>)
         \<lparr>new_file_paths = [b], removed_file_paths = []\<rparr>
       = (Inr ChatEvent,
          m\<lparr>memory_blocks := [StaticMemoryBlock (path_to_block_name a) ca,
                               StaticMemoryBlock (path_to_block_name b) cb]\<rparr>)
     \<and> update_memory_context fs
         (m\<lparr>memory_blocks := [StaticMemoryBlock (path_to_block_name a) ca,
                              StaticMemoryBlock (path_to_block_name b) cb]\<rparr>)
         \<lparr>new_file_paths = [], removed_file_paths = [a]\<rparr>
       = (Inr ChatEvent,
          m\<lparr>memory_blocks := [StaticMemoryBlock (path_to_block_name b) cb]\<rparr>)
     \<and> aget cfg env (m\<lparr>memory_blocks := [StaticMemoryBlock (path_to_block_name b) cb]\<rparr>)
       = (Inr (assemble [cb] (queue m) (pending m) (insert_method cfg)),
          m\<lparr>memory_blocks := [StaticMemoryBlock (path_to_block_name b) cb]\<rparr>)
     \<and> set (context_blocks (assemble [cb] (queue m) (pending m) (insert_method cfg)))
       = set (blocks_of cb) \<union> set (context_blocks (queue m))
         \<union> (case pending m of None \<Rightarrow> {} | Some c \<Rightarrow> set (blocks_of c))"
proof -
  let ?A = "StaticMemoryBlock (path_to_block_name a) ca"
  let ?B = "StaticMemoryBlock (path_to_block_name b) cb"
  have "add_files fs [] [] [a] = (None, [] @ [?A])"
    using pin_a by simp
  then have step1: "update_memory_context fs m \<lparr>new_file_paths = [a], removed_file_paths = []\<rparr>
       = (Inr ChatEvent, m\<lparr>memory_blocks := [?A]\<rparr>)"
    using empty by (simp add: update_memory_context_def)
  have "endswith b image_suffixes \<or> endswith b text_suffixes"
    using pin_b by (rule add_files_single_supported) simp
  then have "CHR ''.'' \<in> set b" by (rule supported_has_dot)
  with block_name_no_dot [of a] have "b \<noteq> path_to_block_name a" by auto
  then have "b \<notin> set (map name [?A])"
    by (simp add: StaticMemoryBlock_def)
  from add_files_single [OF pin_b this, of "[?A]"]
  have step2: "update_memory_context fs (m\<lparr>memory_blocks := [?A]\<rparr>)
         \<lparr>new_file_paths = [b], removed_file_paths = []\<rparr>
       = (Inr ChatEvent, m\<lparr>memory_blocks := [?A, ?B]\<rparr>)"
    by (simp add: update_memory_context_def)
  have step3: "update_memory_context fs (m\<lparr>memory_blocks := [?A, ?B]\<rparr>)
         \<lparr>new_file_paths = [], removed_file_paths = [a]\<rparr>
       = (Inr ChatEvent, m\<lparr>memory_blocks := [?B]\<rparr>)"
    using names by (simp add: update_memory_context_def StaticMemoryBlock_def)
  have read: "aget cfg env (m\<lparr>memory_blocks := [?B]\<rparr>)
       = (Inr (assemble [cb] (queue m) (pending m) (insert_method cfg)),
          m\<lparr>memory_blocks := [?B]\<rparr>)"
    by (simp add: aget_def StaticMemoryBlock_def)
  have "set (context_blocks (assemble [cb] (queue m) (pending m) (insert_method cfg)))
       = set (blocks_of cb) \<union> set (context_blocks (queue m))
         \<union> (case pending m of None \<Rightarrow> {} | Some c \<Rightarrow> set (blocks_of c))"
    by (simp add: context_blocks_assemble)
  with step1 step2 step3 read show ?thesis by simp
qed

theorem pin_pin_unpin_witness:
  "memory_blocks empty_memory = []
   \<and> add_files example_fs [] [] [''file_a.txt'']
       = (None, [StaticMemoryBlock (path_to_block_name ''file_a.txt'') (Str ''alpha'')])
   \<and> add_files example_fs [] [] [''file_b.txt'']
       = (None, [StaticMemoryBlock (path_to_block_name ''file_b.txt'') (Str ''beta'')])
   \<and> path_to_block_name ''file_a.txt'' \<noteq> path_to_block_name ''file_b.txt''
   \<and> update_memory_context example_fs
       (empty_memory\<lparr>memory_blocks :=
          [StaticMemoryBlock (path_to_block_name ''file_a.txt'') (Str ''alpha''),
           StaticMemoryBlock (path_to_block_name ''file_b.txt'') (Str ''beta'')]\<rparr>)
       \<lparr>new_file_paths = [], removed_file_paths = [''file_a.txt'']\<rparr>
     = (Inr ChatEvent,
        empty_memory\<lparr>memory_blocks :=
          [StaticMemoryBlock (path_to_block_name ''file_b.txt'') (Str ''beta'')]\<rparr>)
   \<and> fst (aget from_defaults (\<lambda>k ts. None)
        (empty_memory\<lparr>memory_blocks :=
          [StaticMemoryBlock (path_to_block_name ''file_b.txt'') (Str ''beta'')]\<rparr>))
     = Inr [\<lparr>role = System, content = BlockList [TextBlock ''beta'']\<rparr>]
   \<and> TextBlock ''beta''
       \<in> set (context_blocks [\<lparr>role = System, content = BlockList [TextBlock ''beta'']\<rparr>])
   \<and> TextBlock ''alpha''
       \<notin> set (context_blocks [\<lparr>role = System, content = BlockList [TextBlock ''beta'']\<rparr>])"
proof -
  have pre: "memory_blocks empty_memory = []"
    "add_files example_fs [] [] [''file_a.txt'']
       = (None, [StaticMemoryBlock (path_to_block_name ''file_a.txt'') (Str ''alpha'')])"
    "add_files example_fs [] [] [''file_b.txt'']
       = (None, [StaticMemoryBlock (path_to_block_name ''file_b.txt'') (Str ''beta'')])"
    "path_to_block_name ''file_a.txt'' \<noteq> path_to_block_name ''file_b.txt''"
    by (simp_all add: eval_defs)
  have ctx: "assemble [Str ''beta''] (queue empty_memory) (pending empty_memory)
       (insert_method from_defaults)
     = [\<lparr>role = System, content = BlockList [TextBlock ''beta'']\<rparr>]"
    by (simp add: assemble_def empty_memory_def)
  have blocks: "context_blocks [\<lparr>role = System, content = BlockList [TextBlock ''beta'']\<rparr>]
     = [TextBlock ''beta'']"
    by (simp add: context_blocks_def)
  from pin_pin_unpin [OF pre, of from_defaults "\<lambda>k ts. None"]
  show ?thesis using pre by (simp add: ctx blocks)
qed

end
